theory Spec2Isabelle
  imports Main
begin

section \<open>Station data as the encoders read it\<close>

text \<open>
  The station directory is decoded JSON. A key of a dictionary can be missing, can hold
  \<open>null\<close> (Python's \<open>None\<close>), or can hold a value; the three cases behave differently under
  \<open>d.get(k, default)\<close>, \<open>k in d\<close> and \<open>d[k]\<close>, so optional keys keep all three.
  The keys the encoders index with \<open>[...]\<close> (\<open>name\<close>, \<open>mounts\<close>, and a mount's \<open>url\<close> and
  \<open>format\<close>) are required fields of the records.
\<close>

datatype 'a field = Absent | Null | Val 'a

record mount =
  mount_url :: string
  mount_format :: string
  mount_bitrate :: "int field"

record station =
  station_name :: string
  station_description :: "string field"
  station_url :: "string field"
  station_genre :: "string field"
  station_art :: "string field"
  station_mounts :: "mount list"

text \<open>
  A health result is the pair \<open>(result[1], result[2])\<close> stored by \<open>check_streams\<close>: the flag,
  and either the HTTP status of the response or the text of the exception.
\<close>

datatype info = Status int | Message string

type_synonym health_results = "string \<rightharpoonup> bool \<times> info"

abbreviation NL :: string where
  "NL \<equiv> [CHR 0x0A]"

subsection \<open>Formatting integers as Python's \<open>str\<close> does\<close>

fun str_nat :: "nat \<Rightarrow> string" where
  "str_nat n =
     (if n < 10 then [''0123456789'' ! n]
      else str_nat (n div 10) @ [''0123456789'' ! (n mod 10)])"

declare str_nat.simps [simp del]

definition str_int :: "int \<Rightarrow> string" where
  "str_int i = (if i < 0 then ''-'' @ str_nat (nat (- i)) else str_nat (nat i))"

section \<open>The health lookup shared by the three encoders\<close>

text \<open>\<open>health_results.get(mount['url'], (False, "Not checked"))[0]\<close>\<close>

definition health_status :: "health_results \<Rightarrow> string \<Rightarrow> bool" where
  "health_status hr url =
     fst (case hr url of None \<Rightarrow> (False, Message ''Not checked'') | Some v \<Rightarrow> v)"

section \<open>The M3U encoder\<close>

text \<open>
  \<open>f" - {mount['bitrate']}kbps" if 'bitrate' in mount else ""\<close>: the test is on the presence
  of the key, so a key holding \<open>None\<close> is formatted, as the text \<open>None\<close>.
\<close>

definition bitrate_info :: "mount \<Rightarrow> string" where
  "bitrate_info m =
     (case mount_bitrate m of
        Absent \<Rightarrow> []
      | Null \<Rightarrow> '' - '' @ ''None'' @ ''kbps''
      | Val b \<Rightarrow> '' - '' @ str_int b @ ''kbps'')"

text \<open>The body of the inner loop: one mount of one station, the content so far in, the new content out.\<close>

definition m3u_mount :: "health_results \<Rightarrow> station \<Rightarrow> string \<Rightarrow> mount \<Rightarrow> string" where
  "m3u_mount hr s m3u_content m =
     (if mount_format m = ''mp3'' then
        (if \<not> health_status hr (mount_url m) then m3u_content
         else (m3u_content @ ''#EXTINF:-1,'' @ station_name s @ bitrate_info m @ NL)
                @ mount_url m @ NL)
      else m3u_content)"

definition create_m3u_playlist :: "station list \<Rightarrow> health_results \<Rightarrow> string" where
  "create_m3u_playlist station_data hr =
     foldl (\<lambda>content s. foldl (m3u_mount hr s) content (station_mounts s))
       (''#EXTM3U'' @ NL) station_data"

section \<open>The PLS encoder\<close>

text \<open>The loop state is \<open>(pls_content, valid_entries)\<close>.\<close>

definition pls_mount ::
  "health_results \<Rightarrow> station \<Rightarrow> string \<times> nat \<Rightarrow> mount \<Rightarrow> string \<times> nat" where
  "pls_mount hr s st m =
     (if mount_format m = ''mp3'' then
        (if \<not> health_status hr (mount_url m) then st
         else
           (let valid_entries = snd st + 1;
                c1 = fst st @ ''File'' @ str_nat valid_entries @ ''='' @ mount_url m @ NL;
                c2 = c1 @ ''Title'' @ str_nat valid_entries @ ''='' @ station_name s @ NL;
                c3 = c2 @ ''Length'' @ str_nat valid_entries @ ''=-1'' @ NL
            in (c3, valid_entries)))
      else st)"

definition create_pls_playlist :: "station list \<Rightarrow> health_results \<Rightarrow> string" where
  "create_pls_playlist station_data hr =
     (let st = foldl (\<lambda>st s. foldl (pls_mount hr s) st (station_mounts s))
                 (''[playlist]'' @ NL, 0) station_data
      in (fst st @ ''NumberOfEntries='' @ str_nat (snd st) @ NL) @ ''Version=2'' @ NL)"

section \<open>The XSPF encoder\<close>

subsection \<open>The element tree\<close>

text \<open>
  An \<open>xml.etree.ElementTree.Element\<close>: tag, attributes in insertion order, text (\<open>None\<close> until
  assigned) and children in the order \<open>SubElement\<close> appended them.
\<close>

datatype xml =
  Element (el_tag: string) (el_attrib: "(string \<times> string) list") (el_text: "string option")
    (el_children: "xml list")

text \<open>\<open>station.get(key, '')\<close>: the default only replaces a missing key, a \<open>null\<close> stays \<open>None\<close>.\<close>

definition get_or_empty :: "string field \<Rightarrow> string option" where
  "get_or_empty f = (case f of Absent \<Rightarrow> Some [] | Null \<Rightarrow> None | Val v \<Rightarrow> Some v)"

text \<open>
  \<open>if key in station and station[key]\<close>, then a sub-element whose text is \<open>station[key]\<close>:
  nothing is appended for a missing key, a \<open>null\<close> or an empty string.
\<close>

definition if_available :: "string \<Rightarrow> (string \<times> string) list \<Rightarrow> string field \<Rightarrow> xml list" where
  "if_available tag attrs f =
     (case f of
        Absent \<Rightarrow> []
      | Null \<Rightarrow> []
      | Val v \<Rightarrow> (if v \<noteq> [] then [Element tag attrs (Some v) []] else []))"

definition xspf_track :: "station \<Rightarrow> mount \<Rightarrow> xml" where
  "xspf_track s m =
     Element ''track'' [] None
       ([Element ''location'' [] (Some (mount_url m)) [],
         Element ''title'' [] (Some (station_name s)) [],
         Element ''creator'' [] (Some ''The Indie Beat Radio'') [],
         Element ''annotation'' [] (get_or_empty (station_description s)) [],
         Element ''info'' [] (get_or_empty (station_url s)) []]
        @ if_available ''meta'' [(''rel'', ''genre'')] (station_genre s)
        @ if_available ''image'' [] (station_art s))"

text \<open>The body of the inner loop; the state is the list of children of \<open>trackList\<close>.\<close>

definition xspf_mount :: "health_results \<Rightarrow> station \<Rightarrow> xml list \<Rightarrow> mount \<Rightarrow> xml list" where
  "xspf_mount hr s tracks m =
     (if mount_format m = ''mp3'' then
        (if \<not> health_status hr (mount_url m) then tracks
         else tracks @ [xspf_track s m])
      else tracks)"

text \<open>
  The tree handed to \<open>tostring\<close>. \<open>now\<close> is the text \<open>datetime.now(UTC).isoformat()\<close> returned
  when the encoder ran: the clock is the one thing the encoder reads besides its arguments.
\<close>

definition xspf_tree :: "string \<Rightarrow> station list \<Rightarrow> health_results \<Rightarrow> xml" where
  "xspf_tree now station_data hr =
     Element ''playlist'' [(''version'', ''1''), (''xmlns'', ''http://xspf.org/ns/0/'')] None
       [Element ''title'' [] (Some ''The Indie Beat Radio Streams'') [],
        Element ''date'' [] (Some now) [],
        Element ''trackList'' [] None
          (foldl (\<lambda>tracks s. foldl (xspf_mount hr s) tracks (station_mounts s)) [] station_data)]"

subsection \<open>Serialising: \<open>tostring\<close>, \<open>minidom.parseString\<close>, \<open>toprettyxml(indent="  ")\<close>\<close>

text \<open>
  These three calls are the standard library's (Python 3.11, the version the script
  requires). What they do to a tree whose tags and attribute names are the literals above:
  \<^item> \<open>tostring\<close> writes any character of a text as it is, escaping only the markup characters;
    the parser then rejects the document (\<open>ExpatError\<close>) if it holds a character that XML 1.0
    does not allow, that is a control character other than tab, line feed and carriage return;
  \<^item> the parser turns a carriage return, with the line feed after it if there is one, into a
    line feed, and lists the namespace declaration before the other attributes;
  \<^item> \<open>toprettyxml\<close> writes the declaration, then every element on a line of its own, indented by
    two spaces a level; an element whose only child is a text keeps it on its line, one without
    content is written as an empty-element tag, and \<open>&\<close>, \<open><\<close>, \<open>"\<close> and \<open>>\<close> are escaped.
\<close>

datatype py_error = ExpatError

definition xml_char :: "char \<Rightarrow> bool" where
  "xml_char c = (c = CHR 0x09 \<or> c = CHR 0x0A \<or> c = CHR 0x0D \<or> (32::nat) \<le> of_char c)"

fun wellformed :: "xml \<Rightarrow> bool" where
  "wellformed (Element tag attrs txt kids) =
     (list_all (\<lambda>a. list_all xml_char (snd a)) attrs
      \<and> list_all xml_char (case txt of None \<Rightarrow> [] | Some t \<Rightarrow> t)
      \<and> list_all wellformed kids)"

fun normalize_newlines :: "string \<Rightarrow> string" where
  "normalize_newlines [] = []"
| "normalize_newlines [c] = (if c = CHR 0x0D then NL else [c])"
| "normalize_newlines (c # d # cs) =
     (if c = CHR 0x0D then
        (if d = CHR 0x0A then CHR 0x0A # normalize_newlines cs
         else CHR 0x0A # normalize_newlines (d # cs))
      else c # normalize_newlines (d # cs))"

definition write_data :: "string \<Rightarrow> string" where
  "write_data data =
     concat (map (\<lambda>c. if c = CHR ''&'' then ''&amp;''
                       else if c = CHR ''<'' then ''&lt;''
                       else if c = CHR 0x22 then ''&quot;''
                       else if c = CHR ''>'' then ''&gt;''
                       else [c]) data)"

definition is_xmlns :: "string \<times> string \<Rightarrow> bool" where
  "is_xmlns a = (fst a = ''xmlns'' \<or> take 6 (fst a) = ''xmlns:'')"

definition write_attr :: "string \<times> string \<Rightarrow> string" where
  "write_attr a = '' '' @ fst a @ ''='' @ [CHR 0x22] @ write_data (snd a) @ [CHR 0x22]"

fun writexml :: "string \<Rightarrow> xml \<Rightarrow> string" where
  "writexml indent (Element tag attrs txt kids) =
     (let data = normalize_newlines (case txt of None \<Rightarrow> [] | Some t \<Rightarrow> t);
          start = indent @ ''<'' @ tag
                  @ concat (map write_attr (filter is_xmlns attrs @ filter (\<lambda>a. \<not> is_xmlns a) attrs))
      in if data = [] \<and> kids = [] then start @ ''/>'' @ NL
         else if kids = [] then start @ ''>'' @ write_data data @ ''</'' @ tag @ ''>'' @ NL
         else start @ ''>'' @ NL
              @ (if data = [] then [] else write_data ((indent @ ''  '') @ data @ NL))
              @ concat (map (writexml (indent @ ''  '')) kids)
              @ indent @ ''</'' @ tag @ ''>'' @ NL)"

definition toprettyxml :: "xml \<Rightarrow> string" where
  "toprettyxml root = ''<?xml version='' @ [CHR 0x22] @ ''1.0'' @ [CHR 0x22] @ '' ?>'' @ NL
                      @ writexml [] root"

definition create_xspf_playlist ::
  "string \<Rightarrow> station list \<Rightarrow> health_results \<Rightarrow> py_error + string" where
  "create_xspf_playlist now station_data hr =
     (let playlist = xspf_tree now station_data hr
      in if wellformed playlist then Inr (toprettyxml playlist) else Inl ExpatError)"

section \<open>The health check\<close>

text \<open>
  What the network does is an input. For a URL and a timeout, \<open>session.get\<close> either raises or
  returns a response with a status; \<open>response.content.read(1024)\<close> then either raises or
  returns. An exception has a class, which decides whether \<open>except Exception\<close> catches it
  (\<open>asyncio.CancelledError\<close> and \<open>KeyboardInterrupt\<close> derive from \<open>BaseException\<close> only), and a
  text \<open>str(e)\<close>. The time the whole \<open>async with\<close> block takes is part of the answer, in the
  unit of the timeout.
\<close>

datatype exc_class = Exception_class | BaseException_only

datatype py_exc = Raise (exc_kind: exc_class) (exc_str: string)

record response =
  resp_status :: int
  resp_read :: "py_exc option"

record probe_io =
  io_get :: "py_exc + response"
  io_elapsed :: nat

type_synonym transport = "string \<Rightarrow> nat \<Rightarrow> probe_io"

text \<open>\<open>except Exception as e: return url, False, str(e)\<close>; any other exception propagates.\<close>

definition except_Exception :: "string \<Rightarrow> py_exc \<Rightarrow> py_exc + string \<times> bool \<times> info" where
  "except_Exception url e =
     (case exc_kind e of
        Exception_class \<Rightarrow> Inr (url, False, Message (exc_str e))
      | BaseException_only \<Rightarrow> Inl e)"

definition check_stream :: "nat \<Rightarrow> transport \<Rightarrow> string \<Rightarrow> py_exc + string \<times> bool \<times> info" where
  "check_stream timeout net url =
     (case io_get (net url timeout) of
        Inl e \<Rightarrow> except_Exception url e
      | Inr response \<Rightarrow>
          (case resp_read response of
             Some e \<Rightarrow> except_Exception url e
           | None \<Rightarrow> Inr (url, True, Status (resp_status response))))"

text \<open>
  The loop of \<open>check_streams\<close> awaits the coroutine \<open>check_stream(url)\<close> inside the \<open>for\<close>: the
  next probe starts when this one has returned. The state is \<open>results\<close> and the time spent so
  far. The \<open>except Exception\<close> around the call is kept as the source has it. What is
  printed on the console (the progress bar, the messages under \<open>verbose\<close>) has no part in
  the result and is left out.
\<close>

fun check_loop ::
  "nat \<Rightarrow> transport \<Rightarrow> string list \<Rightarrow> health_results \<times> nat \<Rightarrow> py_exc + health_results \<times> nat"
  where
  "check_loop timeout net [] st = Inr st"
| "check_loop timeout net (url # urls) st =
     (let clock = snd st + io_elapsed (net url timeout) in
      case check_stream timeout net url of
        Inr result \<Rightarrow>
          check_loop timeout net urls ((fst st)(fst result \<mapsto> snd result), clock)
      | Inl e \<Rightarrow>
          (case exc_kind e of
             Exception_class \<Rightarrow>
               check_loop timeout net urls ((fst st)(url \<mapsto> (False, Message (exc_str e))), clock)
           | BaseException_only \<Rightarrow> Inl e))"

definition check_streams ::
  "nat \<Rightarrow> transport \<Rightarrow> string list \<Rightarrow> py_exc + health_results \<times> nat" where
  "check_streams timeout net urls = check_loop timeout net urls (Map.empty, 0)"

section \<open>The parts of \<open>main\<close> between the fetch and the encoders\<close>

definition stream_urls :: "station list \<Rightarrow> string list" where
  "stream_urls station_data =
     concat (map (\<lambda>s. map mount_url (filter (\<lambda>m. mount_format m = ''mp3'') (station_mounts s)))
               station_data)"

text \<open>\<open>{url: (True, "Health check skipped") for url in stream_urls}\<close>\<close>

definition skipped :: "string list \<Rightarrow> health_results" where
  "skipped urls = foldl (\<lambda>r url. r(url \<mapsto> (True, Message ''Health check skipped''))) Map.empty urls"

section \<open>Candidates: the mounts an encoder visits, in the order it visits them\<close>

definition candidates :: "station list \<Rightarrow> (station \<times> mount) list" where
  "candidates station_data =
     concat (map (\<lambda>s. map (Pair s) (filter (\<lambda>m. mount_format m = ''mp3'') (station_mounts s)))
               station_data)"

definition healthy :: "station list \<Rightarrow> health_results \<Rightarrow> (station \<times> mount) list" where
  "healthy station_data hr =
     filter (\<lambda>c. health_status hr (mount_url (snd c))) (candidates station_data)"

definition m3u_entry :: "station \<times> mount \<Rightarrow> string list" where
  "m3u_entry c =
     [''#EXTINF:-1,'' @ station_name (fst c) @ bitrate_info (snd c), mount_url (snd c)]"

definition pls_lines :: "nat \<times> station \<times> mount \<Rightarrow> string list" where
  "pls_lines e =
     (case e of (n, s, m) \<Rightarrow>
        [''File'' @ str_nat n @ ''='' @ mount_url m,
         ''Title'' @ str_nat n @ ''='' @ station_name s,
         ''Length'' @ str_nat n @ ''=-1''])"

text \<open>
  A document as its lines. \<open>unlines\<close> ends every line with a line feed, as the encoders do;
  \<open>lines_of\<close> cuts a text at its line feeds.
\<close>

definition unlines :: "string list \<Rightarrow> string" where
  "unlines ls = concat (map (\<lambda>l. l @ NL) ls)"

fun lines_of :: "string \<Rightarrow> string list" where
  "lines_of [] = []"
| "lines_of (c # cs) =
     (if c = CHR 0x0A then [] # lines_of cs
      else (case lines_of cs of [] \<Rightarrow> [[c]] | l # ls \<Rightarrow> (c # l) # ls))"

definition single_line :: "string \<Rightarrow> bool" where
  "single_line l = (CHR 0x0A \<notin> set l)"

definition singleline_entries :: "(station \<times> mount) list \<Rightarrow> bool" where
  "singleline_entries cs =
     list_all (\<lambda>c. single_line (station_name (fst c)) \<and> single_line (mount_url (snd c))) cs"

section \<open>Sample data\<close>

text \<open>The two candidates of the specification's scenario, each the only mp3 mount of its station.\<close>

definition alpha_mount :: mount where
  "alpha_mount = \<lparr>mount_url = ''http://a/1'', mount_format = ''mp3'', mount_bitrate = Val 128\<rparr>"

definition beta_mount :: mount where
  "beta_mount = \<lparr>mount_url = ''http://a/2'', mount_format = ''mp3'', mount_bitrate = Null\<rparr>"

definition alpha :: station where
  "alpha = \<lparr>station_name = ''Alpha'', station_description = Absent, station_url = Absent,
             station_genre = Absent, station_art = Absent, station_mounts = [alpha_mount]\<rparr>"

definition beta :: station where
  "beta = \<lparr>station_name = ''Beta'', station_description = Absent, station_url = Absent,
            station_genre = Absent, station_art = Absent, station_mounts = [beta_mount]\<rparr>"

definition scenario_health :: health_results where
  "scenario_health =
     [''http://a/1'' \<mapsto> (True, Status 200), ''http://a/2'' \<mapsto> (False, Message ''timeout'')]"

definition both_healthy :: health_results where
  "both_healthy =
     [''http://a/1'' \<mapsto> (True, Status 200), ''http://a/2'' \<mapsto> (True, Status 200)]"

text \<open>A station whose name holds a line feed.\<close>

definition two_line_station :: station where
  "two_line_station = alpha\<lparr>station_name := ''A\<newline>B''\<rparr>"

section \<open>Describing what the network did\<close>

text \<open>The exception raised inside the \<open>async with\<close> block of a probe, if any.\<close>

definition raised :: "probe_io \<Rightarrow> py_exc option" where
  "raised io = (case io_get io of Inl e \<Rightarrow> Some e | Inr response \<Rightarrow> resp_read response)"

text \<open>Nothing was raised, or what was raised derives from \<open>Exception\<close>.\<close>

definition catchable :: "probe_io \<Rightarrow> bool" where
  "catchable io = (case raised io of None \<Rightarrow> True | Some e \<Rightarrow> exc_kind e = Exception_class)"

definition outcome :: "nat \<Rightarrow> transport \<Rightarrow> string \<Rightarrow> bool \<times> info" where
  "outcome timeout net url =
     (case io_get (net url timeout) of
        Inl e \<Rightarrow> (False, Message (exc_str e))
      | Inr response \<Rightarrow>
          (case resp_read response of
             Some e \<Rightarrow> (False, Message (exc_str e))
           | None \<Rightarrow> (True, Status (resp_status response))))"

definition probe_times :: "nat \<Rightarrow> transport \<Rightarrow> string list \<Rightarrow> nat list" where
  "probe_times timeout net urls = map (\<lambda>url. io_elapsed (net url timeout)) urls"

definition run_time :: "nat \<Rightarrow> transport \<Rightarrow> string list \<Rightarrow> nat option" where
  "run_time timeout net urls =
     (case check_streams timeout net urls of Inl e \<Rightarrow> None | Inr r \<Rightarrow> Some (snd r))"

text \<open>Every stream answers 200 and delivers its first chunk after three seconds.\<close>

definition steady_net :: transport where
  "steady_net url timeout =
     \<lparr>io_get = Inr \<lparr>resp_status = 200, resp_read = None\<rparr>, io_elapsed = 3\<rparr>"

text \<open>Every stream answers 404 with a body.\<close>

definition not_found_net :: transport where
  "not_found_net url timeout =
     \<lparr>io_get = Inr \<lparr>resp_status = 404, resp_read = None\<rparr>, io_elapsed = 1\<rparr>"

text \<open>
  No stream answers within the timeout: the request ends with \<open>asyncio.TimeoutError()\<close>, an
  \<open>Exception\<close> whose \<open>str\<close> is the empty string.
\<close>

definition timeout_net :: transport where
  "timeout_net url timeout = \<lparr>io_get = Inl (Raise Exception_class []), io_elapsed = timeout\<rparr>"

text \<open>The task is cancelled while the request is pending (\<open>asyncio.CancelledError\<close>).\<close>

definition cancelled_net :: transport where
  "cancelled_net url timeout = \<lparr>io_get = Inl (Raise BaseException_only []), io_elapsed = 1\<rparr>"

section \<open>Texts and fields, for stating what the XSPF encoder does\<close>

text \<open>
  A character that the parser and the writer leave as it is: allowed in XML, not a carriage
  return, not one of the four that are written escaped. \<open>isoformat()\<close> returns a non-empty text
  of digits and of the characters \<open>- : . + T\<close>, all of this kind.
\<close>

definition plain_char :: "char \<Rightarrow> bool" where
  "plain_char c = (xml_char c \<and> c \<noteq> CHR 0x0D \<and> c \<noteq> CHR ''&'' \<and> c \<noteq> CHR ''<''
                   \<and> c \<noteq> CHR 0x22 \<and> c \<noteq> CHR ''>'')"

definition clock_text :: "string \<Rightarrow> bool" where
  "clock_text now = (now \<noteq> [] \<and> list_all plain_char now)"



text \<open>A station with no optional key but a \<open>null\<close> description; its mount has no bitrate.\<close>

definition bare_mount :: mount where
  "bare_mount = \<lparr>mount_url = ''http://a/3'', mount_format = ''mp3'', mount_bitrate = Absent\<rparr>"

definition bare :: station where
  "bare = \<lparr>station_name = ''Gamma'', station_description = Null, station_url = Absent,
            station_genre = Absent, station_art = Absent, station_mounts = [bare_mount]\<rparr>"

text \<open>A station whose name holds the control character U+0001.\<close>

definition control_station :: station where
  "control_station = alpha\<lparr>station_name := [CHR 0x01]\<rparr>"

text \<open>A health map with an entry for the first stream only.\<close>

definition only_alpha :: health_results where
  "only_alpha = [''http://a/1'' \<mapsto> (True, Message ''Health check skipped'')]"

section \<open>Loops over stations and mounts as loops over candidates\<close>

lemma foldl_nested:
  "foldl (\<lambda>a s. foldl (f s) a (g s)) a ss
     = foldl (\<lambda>a c. f (fst c) a (snd c)) a (concat (map (\<lambda>s. map (Pair s) (g s)) ss))"
proof (induction ss arbitrary: a)
  case Nil
  show ?case by simp
next
  case (Cons s ss)
  have inner: "foldl (\<lambda>a c. f (fst c) a (snd c)) b (map (Pair s) ms) = foldl (f s) b ms"
    for b ms
    by (induction ms arbitrary: b) simp_all
  show ?case by (simp add: Cons.IH inner)
qed

lemma foldl_guarded:
  "foldl (\<lambda>a s. foldl (\<lambda>a m. if P m then (if \<not> Q m then a else f s a m) else a) a (g s)) a ss
     = foldl (\<lambda>a c. f (fst c) a (snd c)) a
         (filter (\<lambda>c. Q (snd c)) (concat (map (\<lambda>s. map (Pair s) (filter P (g s))) ss)))"
proof -
  have "foldl (\<lambda>a m. if P m then (if \<not> Q m then a else f s a m) else a) b ms
          = foldl (f s) b (filter Q (filter P ms))" for s b ms
    by (induction ms arbitrary: b) simp_all
  then have "foldl (\<lambda>a s. foldl (\<lambda>a m. if P m then (if \<not> Q m then a else f s a m) else a) a (g s)) a ss
          = foldl (\<lambda>a s. foldl (f s) a (filter Q (filter P (g s)))) a ss"
    by simp
  also have "\<dots> = foldl (\<lambda>a c. f (fst c) a (snd c)) a
         (concat (map (\<lambda>s. map (Pair s) (filter Q (filter P (g s)))) ss))"
    by (rule foldl_nested)
  also have "concat (map (\<lambda>s. map (Pair s) (filter Q (filter P (g s)))) ss)
         = filter (\<lambda>c. Q (snd c)) (concat (map (\<lambda>s. map (Pair s) (filter P (g s))) ss))"
    by (induction ss) (simp_all add: filter_map comp_def)
  finally show ?thesis .
qed

lemma foldl_append_entries:
  "foldl (\<lambda>a c. a @ e c) a cs = a @ concat (map e cs)"
  by (induction cs arbitrary: a) simp_all

lemma unlines_concat: "concat (map unlines ls) = unlines (concat ls)"
  by (induction ls) (simp_all add: unlines_def)

lemma create_m3u_playlist_unlines:
  "create_m3u_playlist station_data hr
     = unlines (''#EXTM3U'' # concat (map m3u_entry (healthy station_data hr)))"
proof -
  have step: "m3u_mount hr s a m =
      (if mount_format m = ''mp3'' then
         (if \<not> health_status hr (mount_url m) then a
          else a @ unlines (m3u_entry (s, m)))
       else a)" for s a m
    by (simp add: m3u_mount_def m3u_entry_def unlines_def)
  have "create_m3u_playlist station_data hr
      = foldl (\<lambda>a c. a @ unlines (m3u_entry (fst c, snd c))) (''#EXTM3U'' @ NL)
          (healthy station_data hr)"
    unfolding create_m3u_playlist_def healthy_def candidates_def step
    by (rule foldl_guarded)
  also have "\<dots> = (''#EXTM3U'' @ NL) @ concat (map (\<lambda>c. unlines (m3u_entry c)) (healthy station_data hr))"
    by (simp only: foldl_append_entries prod.collapse)
  also have "concat (map (\<lambda>c. unlines (m3u_entry c)) (healthy station_data hr))
          = unlines (concat (map m3u_entry (healthy station_data hr)))"
    using unlines_concat[of "map m3u_entry (healthy station_data hr)"] by (simp add: comp_def)
  finally show ?thesis
    by (simp add: unlines_def)
qed

lemma pls_loop:
  "foldl (\<lambda>st c. (fst st @ unlines (pls_lines (Suc (snd st), fst c, snd c)), Suc (snd st)))
         (a, n) cs
     = (a @ unlines (concat (map pls_lines (enumerate (Suc n) cs))), n + length cs)"
  by (induction cs arbitrary: a n) (simp_all add: unlines_def)

lemma create_pls_playlist_unlines:
  "create_pls_playlist station_data hr
     = unlines ([''[playlist]'']
                @ concat (map pls_lines (enumerate 1 (healthy station_data hr)))
                @ [''NumberOfEntries='' @ str_nat (length (healthy station_data hr)),
                   ''Version=2''])"
proof -
  have step: "pls_mount hr s st m =
      (if mount_format m = ''mp3'' then
         (if \<not> health_status hr (mount_url m) then st
          else (fst st @ unlines (pls_lines (Suc (snd st), s, m)), Suc (snd st)))
       else st)" for s st m
    by (simp add: pls_mount_def pls_lines_def unlines_def Let_def)
  have "foldl (\<lambda>st s. foldl (pls_mount hr s) st (station_mounts s)) (''[playlist]'' @ NL, 0)
          station_data
      = foldl (\<lambda>st c. (fst st @ unlines (pls_lines (Suc (snd st), fst c, snd c)), Suc (snd st)))
          (''[playlist]'' @ NL, 0) (healthy station_data hr)"
    unfolding healthy_def candidates_def step
    by (rule foldl_guarded)
  also have "\<dots> = ((''[playlist]'' @ NL)
                    @ unlines (concat (map pls_lines (enumerate (Suc 0) (healthy station_data hr)))),
                  0 + length (healthy station_data hr))"
    by (rule pls_loop)
  finally have loop:
    "foldl (\<lambda>st s. foldl (pls_mount hr s) st (station_mounts s)) (''[playlist]'' @ NL, 0)
       station_data
     = ((''[playlist]'' @ NL)
          @ unlines (concat (map pls_lines (enumerate (Suc 0) (healthy station_data hr)))),
        0 + length (healthy station_data hr))" .
  show ?thesis
    unfolding create_pls_playlist_def loop
    by (simp add: Let_def unlines_def)
qed

section \<open>Lines\<close>

lemma lines_of_line: "single_line l \<Longrightarrow> lines_of (l @ CHR 0x0A # rest) = l # lines_of rest"
  by (induction l) (auto simp: single_line_def)

lemma lines_of_unlines: "list_all single_line ls \<Longrightarrow> lines_of (unlines ls) = ls"
  by (induction ls) (simp_all add: unlines_def lines_of_line)

lemma single_line_append: "single_line (a @ b) = (single_line a \<and> single_line b)"
  by (auto simp: single_line_def)

lemma str_nat_digits: "set (str_nat n) \<subseteq> set ''0123456789''"
proof (induction n rule: str_nat.induct)
  case (1 n)
  have d: "k < 10 \<Longrightarrow> ''0123456789'' ! k \<in> set ''0123456789''" for k :: nat
    by (rule nth_mem) simp
  show ?case
  proof (cases "n < 10")
    case True
    then show ?thesis using d[of n] by (subst str_nat.simps) simp
  next
    case False
    have "n mod 10 < 10" by simp
    from d[OF this] 1[OF False] False show ?thesis
      by (subst str_nat.simps) simp
  qed
qed

lemma single_line_str_nat: "single_line (str_nat n)"
  using str_nat_digits[of n] by (auto simp: single_line_def)

lemma single_line_bitrate_info: "single_line (bitrate_info m)"
  using single_line_str_nat
  by (cases "mount_bitrate m") (auto simp: bitrate_info_def single_line_def str_int_def)

lemma m3u_entry_single:
  "single_line (station_name (fst c)) \<Longrightarrow> single_line (mount_url (snd c))
     \<Longrightarrow> list_all single_line (m3u_entry c)"
proof -
  assume n: "single_line (station_name (fst c))" and u: "single_line (mount_url (snd c))"
  have "single_line ''#EXTINF:-1,''" by (simp add: single_line_def)
  with n single_line_bitrate_info[of "snd c"]
  have "single_line (''#EXTINF:-1,'' @ station_name (fst c) @ bitrate_info (snd c))"
    by (simp only: single_line_append simp_thms)
  with u show ?thesis by (simp add: m3u_entry_def)
qed

lemma m3u_entries_single:
  "singleline_entries cs \<Longrightarrow> list_all single_line (concat (map m3u_entry cs))"
  by (induction cs) (simp_all add: singleline_entries_def m3u_entry_single)

section \<open>The health check loop\<close>

lemma check_stream_catchable:
  "catchable (net url timeout) \<Longrightarrow>
     check_stream timeout net url = Inr (url, outcome timeout net url)"
  by (auto simp: catchable_def raised_def check_stream_def except_Exception_def outcome_def
           split: sum.splits option.splits exc_class.splits)

lemma check_loop_catchable:
  "list_all (\<lambda>u. catchable (net u timeout)) urls \<Longrightarrow>
   check_loop timeout net urls (results, clock)
     = Inr (\<lambda>u. if u \<in> set urls then Some (outcome timeout net u) else results u,
            clock + sum_list (probe_times timeout net urls))"
proof (induction urls arbitrary: results clock)
  case Nil
  show ?case by (simp add: probe_times_def)
next
  case (Cons url urls)
  then have c: "catchable (net url timeout)"
    and rest: "list_all (\<lambda>u. catchable (net u timeout)) urls" by simp_all
  have cs: "check_stream timeout net url = Inr (url, outcome timeout net url)"
    using c by (rule check_stream_catchable)
  show ?case
    by (simp add: cs Cons.IH[OF rest] Let_def probe_times_def fun_eq_iff)
qed

lemma check_streams_catchable:
  "list_all (\<lambda>u. catchable (net u timeout)) urls \<Longrightarrow>
   check_streams timeout net urls
     = Inr (\<lambda>u. if u \<in> set urls then Some (outcome timeout net u) else None,
            sum_list (probe_times timeout net urls))"
  by (simp add: check_streams_def check_loop_catchable)

lemma sum_list_bounded: "list_all (\<lambda>t. t \<le> b) ts \<Longrightarrow> sum_list ts \<le> length ts * (b::nat)"
  by (induction ts) auto

section \<open>What the encoders read of the health results\<close>

lemma stream_urls_candidates: "stream_urls sd = map (\<lambda>c. mount_url (snd c)) (candidates sd)"
  by (induction sd) (simp_all add: stream_urls_def candidates_def comp_def)

lemma healthy_cong:
  "(\<And>u. u \<in> set (stream_urls sd) \<Longrightarrow> health_status hr1 u = health_status hr2 u)
     \<Longrightarrow> healthy sd hr1 = healthy sd hr2"
  unfolding healthy_def stream_urls_candidates
  by (rule filter_cong) auto

lemma skipped_apply:
  "foldl (\<lambda>r url. r(url \<mapsto> v)) r urls = (\<lambda>u. if u \<in> set urls then Some v else r u)"
  by (induction urls arbitrary: r) (auto simp: fun_eq_iff)

lemma xspf_tracks:
  "foldl (\<lambda>tracks s. foldl (xspf_mount hr s) tracks (station_mounts s)) [] sd
     = map (\<lambda>c. xspf_track (fst c) (snd c)) (healthy sd hr)"
proof -
  have step: "xspf_mount hr s a m =
      (if mount_format m = ''mp3'' then
         (if \<not> health_status hr (mount_url m) then a else a @ [xspf_track s m])
       else a)" for s a m
    by (simp add: xspf_mount_def)
  have "foldl (\<lambda>tracks s. foldl (xspf_mount hr s) tracks (station_mounts s)) [] sd
      = foldl (\<lambda>a c. a @ [xspf_track (fst c) (snd c)]) [] (healthy sd hr)"
    unfolding healthy_def candidates_def step
    by (rule foldl_guarded)
  also have "\<dots> = [] @ concat (map (\<lambda>c. [xspf_track (fst c) (snd c)]) (healthy sd hr))"
    by (rule foldl_append_entries)
  also have "\<dots> = map (\<lambda>c. xspf_track (fst c) (snd c)) (healthy sd hr)"
    by (induction "healthy sd hr") simp_all
  finally show ?thesis .
qed

section \<open>The XSPF document\<close>

lemma xspf_tree_healthy:
  "xspf_tree now sd hr =
     Element ''playlist'' [(''version'', ''1''), (''xmlns'', ''http://xspf.org/ns/0/'')] None
       [Element ''title'' [] (Some ''The Indie Beat Radio Streams'') [],
        Element ''date'' [] (Some now) [],
        Element ''trackList'' [] None (map (\<lambda>c. xspf_track (fst c) (snd c)) (healthy sd hr))]"
  unfolding xspf_tree_def xspf_tracks ..

lemma encoders_healthy_cong:
  assumes "healthy sd hr1 = healthy sd hr2"
  shows "create_m3u_playlist sd hr1 = create_m3u_playlist sd hr2
         \<and> create_pls_playlist sd hr1 = create_pls_playlist sd hr2
         \<and> create_xspf_playlist now sd hr1 = create_xspf_playlist now sd hr2"
  using assms
  by (simp only: create_m3u_playlist_unlines create_pls_playlist_unlines
        create_xspf_playlist_def xspf_tree_healthy simp_thms)

lemma plain_normalize: "list_all plain_char t \<Longrightarrow> normalize_newlines t = t"
  by (induction t rule: normalize_newlines.induct) (simp_all add: plain_char_def)

lemma plain_write_data: "list_all plain_char t \<Longrightarrow> write_data t = t"
  unfolding write_data_def by (induction t) (simp_all add: plain_char_def)

lemma writexml_text_only:
  "list_all plain_char t \<Longrightarrow> t \<noteq> [] \<Longrightarrow>
     writexml indent (Element tag [] (Some t) [])
       = indent @ ''<'' @ tag @ ''>'' @ t @ ''</'' @ tag @ ''>'' @ NL"
  by (simp add: plain_normalize plain_write_data Let_def)

lemma writexml_playlist:
  "writexml [] (Element ''playlist'' [(''version'', ''1''), (''xmlns'', ''http://xspf.org/ns/0/'')]
                  None [a, b, c])
     = (''<playlist xmlns='' @ [CHR 0x22] @ ''http://xspf.org/ns/0/'' @ [CHR 0x22]
        @ '' version='' @ [CHR 0x22] @ ''1'' @ [CHR 0x22] @ ''>'' @ NL)
       @ writexml ''  '' a @ writexml ''  '' b @ writexml ''  '' c @ ''</playlist>'' @ NL"
  by (simp add: Let_def write_data_def write_attr_def is_xmlns_def del: writexml.simps
          add: writexml.simps[of "[]" "''playlist''"])

lemma toprettyxml_date:
  assumes "clock_text now"
  shows "toprettyxml (xspf_tree now sd hr) =
     ((''<?xml version='' @ [CHR 0x22] @ ''1.0'' @ [CHR 0x22] @ '' ?>'' @ NL)
      @ (''<playlist xmlns='' @ [CHR 0x22] @ ''http://xspf.org/ns/0/'' @ [CHR 0x22]
        @ '' version='' @ [CHR 0x22] @ ''1'' @ [CHR 0x22] @ ''>'' @ NL)
      @ writexml ''  '' (Element ''title'' [] (Some ''The Indie Beat Radio Streams'') [])
      @ ''  <date>'') @ now @ (''</date>'' @ NL
      @ writexml ''  '' (Element ''trackList'' [] None
           (map (\<lambda>c. xspf_track (fst c) (snd c)) (healthy sd hr)))
      @ ''</playlist>'' @ NL)"
proof -
  have p: "list_all plain_char now" and n: "now \<noteq> []"
    using assms by (simp_all add: clock_text_def)
  have d: "writexml ''  '' (Element ''date'' [] (Some now) [])
             = ''  '' @ ''<'' @ ''date'' @ ''>'' @ now @ ''</'' @ ''date'' @ ''>'' @ NL"
    using p n by (rule writexml_text_only)
  show ?thesis
    unfolding toprettyxml_def xspf_tree_healthy writexml_playlist d
    by (simp only: append_assoc append_Cons append_Nil)
qed

lemma xspf_date_injective:
  assumes "clock_text now1" "clock_text now2"
    and "create_xspf_playlist now1 sd hr = Inr d1" "create_xspf_playlist now2 sd hr = Inr d2"
  shows "(d1 = d2) = (now1 = now2)"
proof -
  have d1: "d1 = toprettyxml (xspf_tree now1 sd hr)"
    and d2: "d2 = toprettyxml (xspf_tree now2 sd hr)"
    using assms(3,4) by (auto simp: create_xspf_playlist_def Let_def split: if_splits)
  show ?thesis
    unfolding d1 d2 toprettyxml_date[OF assms(1)] toprettyxml_date[OF assms(2)]
    by (simp only: same_append_eq append_same_eq)
qed

lemma wellformed_xspf_tree:
  "wellformed (xspf_tree now sd hr)
     = (list_all xml_char now
        \<and> list_all (\<lambda>c. wellformed (xspf_track (fst c) (snd c))) (healthy sd hr))"
  by (simp add: xspf_tree_healthy xml_char_def list.pred_map comp_def)

lemma create_xspf_playlist_raises:
  "(create_xspf_playlist now sd hr = Inl ExpatError)
     = (\<not> (list_all xml_char now
            \<and> list_all (\<lambda>c. wellformed (xspf_track (fst c) (snd c))) (healthy sd hr)))"
  unfolding wellformed_xspf_tree[symmetric]
  by (simp add: create_xspf_playlist_def Let_def)

section \<open>Health maps that agree on the streams\<close>

lemma health_status_skipped: "u \<in> set urls \<Longrightarrow> health_status (skipped urls) u"
  by (simp add: skipped_def skipped_apply health_status_def)

lemma healthy_skipped:
  assumes "list_all (health_status hr) (stream_urls sd)"
  shows "healthy sd (skipped (stream_urls sd)) = healthy sd hr"
proof (rule healthy_cong)
  fix u assume u: "u \<in> set (stream_urls sd)"
  with assms have "health_status hr u" by (simp add: list_all_iff)
  with health_status_skipped[OF u]
  show "health_status (skipped (stream_urls sd)) u = health_status hr u" by simp
qed

lemma health_status_missing:
  "url \<notin> dom hr \<Longrightarrow> health_status (hr(url \<mapsto> (False, Message ''Not checked''))) = health_status hr"
proof
  fix u
  assume "url \<notin> dom hr"
  then have "hr url = None" by (simp only: domIff not_not)
  then show "health_status (hr(url \<mapsto> (False, Message ''Not checked''))) u = health_status hr u"
    by (simp add: health_status_def)
qed

lemma healthy_in_dom: "list_all (\<lambda>c. mount_url (snd c) \<in> dom hr) (healthy sd hr)"
  by (auto simp: healthy_def list_all_iff health_status_def dom_def split: option.splits)

lemma outcome_responds:
  "raised (net u timeout) = None \<Longrightarrow> fst (outcome timeout net u)"
  by (auto simp: raised_def outcome_def split: sum.splits option.splits)

section \<open>Evaluating the sample data\<close>

lemmas sample_defs =
  alpha_def beta_def alpha_mount_def beta_mount_def scenario_health_def both_healthy_def
  two_line_station_def bare_def bare_mount_def control_station_def only_alpha_def

lemmas m3u_eval =
  create_m3u_playlist_def m3u_mount_def health_status_def bitrate_info_def str_int_def
  str_nat.simps

lemma healthy_scenario: "healthy [alpha, beta] scenario_health = [(alpha, alpha_mount)]"
  by (simp add: healthy_def candidates_def health_status_def sample_defs)

lemma healthy_two_line:
  "healthy [two_line_station] scenario_health = [(two_line_station, alpha_mount)]"
  by (simp add: healthy_def candidates_def health_status_def sample_defs)

section \<open>Claims\<close>

text \<open>
  C2. The M3U document is the header line \<open>#EXTM3U\<close> followed, for every healthy mp3
  candidate in candidate order, by the text \<open>#EXTINF:-1,<name><bitrate suffix>\<close>, a line feed,
  the stream URL and a line feed. When no station name and no URL of a healthy candidate holds
  a line feed, these are exactly two lines for each healthy candidate, the \<open>#EXTINF\<close> line
  and right after it the URL line. For the scenario of the specification the document is
  \<open>#EXTM3U\n#EXTINF:-1,Alpha - 128kbps\nhttp://a/1\n\<close>.
\<close>

theorem create_m3u_playlist_lines:
  "create_m3u_playlist station_data hr
     = unlines (''#EXTM3U'' # concat (map m3u_entry (healthy station_data hr)))
   \<and> (singleline_entries (healthy station_data hr) \<longrightarrow>
        lines_of (create_m3u_playlist station_data hr)
          = ''#EXTM3U'' # concat (map m3u_entry (healthy station_data hr))
        \<and> length (lines_of (create_m3u_playlist station_data hr))
          = 1 + 2 * length (healthy station_data hr))
   \<and> create_m3u_playlist [alpha, beta] scenario_health
     = ''#EXTM3U\<newline>#EXTINF:-1,Alpha - 128kbps\<newline>http://a/1\<newline>''"
proof (intro conjI impI)
  show closed: "create_m3u_playlist station_data hr
     = unlines (''#EXTM3U'' # concat (map m3u_entry (healthy station_data hr)))"
    by (rule create_m3u_playlist_unlines)
  show "create_m3u_playlist [alpha, beta] scenario_health
     = ''#EXTM3U\<newline>#EXTINF:-1,Alpha - 128kbps\<newline>http://a/1\<newline>''"
    by (simp add: m3u_eval sample_defs)
  assume single: "singleline_entries (healthy station_data hr)"
  have "list_all single_line (''#EXTM3U'' # concat (map m3u_entry (healthy station_data hr)))"
    using m3u_entries_single[OF single] by (simp add: single_line_def)
  then show ls: "lines_of (create_m3u_playlist station_data hr)
          = ''#EXTM3U'' # concat (map m3u_entry (healthy station_data hr))"
    unfolding closed by (rule lines_of_unlines)
  have "length (concat (map m3u_entry cs)) = 2 * length cs" for cs
    by (induction cs) (simp_all add: m3u_entry_def)
  then show "length (lines_of (create_m3u_playlist station_data hr))
          = 1 + 2 * length (healthy station_data hr)"
    unfolding ls by simp
qed

theorem create_m3u_playlist_lines_witness:
  "singleline_entries (healthy [alpha, beta] scenario_health)
   \<and> lines_of (create_m3u_playlist [alpha, beta] scenario_health)
       = [''#EXTM3U'', ''#EXTINF:-1,Alpha - 128kbps'', ''http://a/1'']
   \<and> length (lines_of (create_m3u_playlist [alpha, beta] scenario_health)) = 3"
proof -
  have h: "singleline_entries (healthy [alpha, beta] scenario_health)"
    unfolding healthy_scenario
    by (simp add: singleline_entries_def single_line_def sample_defs)
  have e: "m3u_entry (alpha, alpha_mount) = [''#EXTINF:-1,Alpha - 128kbps'', ''http://a/1'']"
    by (simp add: m3u_entry_def bitrate_info_def str_int_def str_nat.simps sample_defs)
  note create_m3u_playlist_lines[of "[alpha, beta]" scenario_health, THEN conjunct2, THEN conjunct1]
  from this[THEN mp, OF h] have
    "lines_of (create_m3u_playlist [alpha, beta] scenario_health)
       = ''#EXTM3U'' # concat (map m3u_entry [(alpha, alpha_mount)])
     \<and> length (lines_of (create_m3u_playlist [alpha, beta] scenario_health))
       = 1 + 2 * length [(alpha, alpha_mount)]"
    unfolding healthy_scenario .
  with h show ?thesis
    by (simp add: e)
qed

text \<open>
  C2 as it is written fails where a station name holds a line feed: one healthy candidate,
  and three lines after the header.
\<close>

theorem create_m3u_playlist_lines_counterexample:
  "length (healthy [two_line_station] scenario_health) = 1
   \<and> lines_of (create_m3u_playlist [two_line_station] scenario_health)
       = [''#EXTM3U'', ''#EXTINF:-1,A'', ''B - 128kbps'', ''http://a/1'']"
  by (simp add: healthy_two_line) (simp add: m3u_eval sample_defs)

text \<open>
  C3. The PLS document is the line \<open>[playlist]\<close>, then for the healthy candidates in emission
  order the lines \<open>File<n>=<url>\<close>, \<open>Title<n>=<station name>\<close>, \<open>Length<n>=-1\<close> with
  \<open>n = 1, 2, \<dots>, k\<close> and no gap, \<open>k\<close> being the number of healthy candidates, then
  \<open>NumberOfEntries=<k>\<close> and last \<open>Version=2\<close>.
\<close>

theorem create_pls_playlist_numbering:
  "create_pls_playlist station_data hr
     = unlines ([''[playlist]'']
                @ concat (map pls_lines
                    (zip [1 ..< 1 + length (healthy station_data hr)] (healthy station_data hr)))
                @ [''NumberOfEntries='' @ str_nat (length (healthy station_data hr)),
                   ''Version=2''])"
  unfolding create_pls_playlist_unlines enumerate_eq_zip ..

text \<open>
  C7. A healthy mount whose \<open>bitrate\<close> key holds \<open>null\<close>: the encoder tests the presence of the
  key only and writes the suffix with the text \<open>None\<close>.
\<close>

theorem create_m3u_playlist_null_bitrate:
  "create_m3u_playlist [beta] both_healthy
     = ''#EXTM3U\<newline>#EXTINF:-1,Beta - Nonekbps\<newline>http://a/2\<newline>''"
  by (simp add: m3u_eval sample_defs)

text \<open>
  C1. \<open>check_streams\<close> probes the URLs of its list one after another, one probe for each
  element, the next starting when the one before has returned. When no probe is interrupted
  by an exception outside \<open>Exception\<close>, the run returns a result for every URL of the list and
  the time it takes is the sum of the times of its probes; so it is at most the number of
  URLs times the timeout when every probe keeps to the timeout.
\<close>

theorem check_streams_sequential:
  "(list_all (\<lambda>u. catchable (net u timeout)) urls \<longrightarrow>
      check_streams timeout net urls
        = Inr (\<lambda>u. if u \<in> set urls then Some (outcome timeout net u) else None,
               sum_list (probe_times timeout net urls))
      \<and> run_time timeout net urls = Some (sum_list (probe_times timeout net urls)))
   \<and> (list_all (\<lambda>u. catchable (net u timeout)) urls
        \<and> list_all (\<lambda>t. t \<le> timeout) (probe_times timeout net urls) \<longrightarrow>
      (\<exists>t. run_time timeout net urls = Some t \<and> t \<le> length urls * timeout))"
proof (intro conjI impI)
  assume c: "list_all (\<lambda>u. catchable (net u timeout)) urls"
  show r: "check_streams timeout net urls
        = Inr (\<lambda>u. if u \<in> set urls then Some (outcome timeout net u) else None,
               sum_list (probe_times timeout net urls))"
    using c by (rule check_streams_catchable)
  show "run_time timeout net urls = Some (sum_list (probe_times timeout net urls))"
    by (simp add: run_time_def r)
next
  assume "list_all (\<lambda>u. catchable (net u timeout)) urls
        \<and> list_all (\<lambda>t. t \<le> timeout) (probe_times timeout net urls)"
  then have c: "list_all (\<lambda>u. catchable (net u timeout)) urls"
    and b: "list_all (\<lambda>t. t \<le> timeout) (probe_times timeout net urls)" by simp_all
  have "check_streams timeout net urls
        = Inr (\<lambda>u. if u \<in> set urls then Some (outcome timeout net u) else None,
               sum_list (probe_times timeout net urls))"
    using c by (rule check_streams_catchable)
  then have "run_time timeout net urls = Some (sum_list (probe_times timeout net urls))"
    by (simp add: run_time_def)
  moreover have "sum_list (probe_times timeout net urls) \<le> length urls * timeout"
    using sum_list_bounded[OF b] by (simp add: probe_times_def)
  ultimately show "\<exists>t. run_time timeout net urls = Some t \<and> t \<le> length urls * timeout"
    by simp
qed

theorem check_streams_sequential_witness:
  "list_all (\<lambda>u. catchable (steady_net u 5)) [''http://a/1'', ''http://a/2'']
   \<and> list_all (\<lambda>t. t \<le> 5) (probe_times 5 steady_net [''http://a/1'', ''http://a/2''])
   \<and> run_time 5 steady_net [''http://a/1'', ''http://a/2''] = Some 6
   \<and> sum_list (probe_times 5 steady_net [''http://a/1'', ''http://a/2'']) = 6"
proof -
  have c: "list_all (\<lambda>u. catchable (steady_net u 5)) [''http://a/1'', ''http://a/2'']"
    by (simp add: catchable_def raised_def steady_net_def)
  have t: "probe_times 5 steady_net [''http://a/1'', ''http://a/2''] = [3, 3]"
    by (simp add: probe_times_def steady_net_def)
  note check_streams_sequential[of steady_net 5 "[''http://a/1'', ''http://a/2'']",
      THEN conjunct1, THEN mp, OF c, THEN conjunct2]
  with c show ?thesis
    by (simp add: t)
qed

text \<open>
  C1 as it is written fails: two probes of three seconds each, under a timeout of five
  seconds, make a run of six seconds, longer than the slowest probe and than the timeout.
\<close>

theorem check_streams_concurrent_counterexample:
  "probe_times 5 steady_net [''http://a/1'', ''http://a/2''] = [3, 3]
   \<and> run_time 5 steady_net [''http://a/1'', ''http://a/2''] = Some 6"
  by (simp add: probe_times_def run_time_def check_streams_def check_stream_def steady_net_def
        Let_def)

text \<open>
  C5. Whenever the request answers, or fails with an exception that derives from
  \<open>Exception\<close>, \<open>check_stream\<close> returns an outcome for its URL; an exception outside
  \<open>Exception\<close> propagates. The reason of an unhealthy outcome is the text \<open>str(e)\<close> of the
  exception that was caught, whatever that text is.
\<close>

theorem check_stream_outcome:
  "(catchable (net url timeout) \<longrightarrow>
      (\<exists>ok info. check_stream timeout net url = Inr (url, ok, info)))
   \<and> (check_stream timeout net url = Inr (u, False, info) \<longrightarrow>
      (\<exists>e. raised (net url timeout) = Some e \<and> exc_kind e = Exception_class
           \<and> u = url \<and> info = Message (exc_str e)))
   \<and> (\<not> catchable (net url timeout) \<longrightarrow>
      (\<exists>e. raised (net url timeout) = Some e \<and> check_stream timeout net url = Inl e))"
  by (auto simp: catchable_def raised_def check_stream_def except_Exception_def
           split: sum.splits option.splits exc_class.splits)

theorem check_stream_outcome_witness:
  "catchable (timeout_net ''http://a/1'' 5)
   \<and> check_stream 5 timeout_net ''http://a/1'' = Inr (''http://a/1'', False, Message [])
   \<and> raised (timeout_net ''http://a/1'' 5) = Some (Raise Exception_class [])
   \<and> \<not> catchable (cancelled_net ''http://a/1'' 5)
   \<and> check_stream 5 cancelled_net ''http://a/1'' = Inl (Raise BaseException_only [])"
proof -
  have c: "catchable (timeout_net ''http://a/1'' 5)"
    by (simp add: catchable_def raised_def timeout_net_def)
  have n: "\<not> catchable (cancelled_net ''http://a/1'' 5)"
    by (simp add: catchable_def raised_def cancelled_net_def)
  have r: "raised (timeout_net ''http://a/1'' 5) = Some (Raise Exception_class [])"
    by (simp add: raised_def timeout_net_def)
  have r': "raised (cancelled_net ''http://a/1'' 5) = Some (Raise BaseException_only [])"
    by (simp add: raised_def cancelled_net_def)
  from check_stream_outcome[of timeout_net "''http://a/1''" 5, THEN conjunct1, THEN mp, OF c]
  obtain ok info where o: "check_stream 5 timeout_net ''http://a/1'' = Inr (''http://a/1'', ok, info)"
    by blast
  have "\<not> ok"
    using o by (simp add: check_stream_def except_Exception_def timeout_net_def)
  with o have o': "check_stream 5 timeout_net ''http://a/1'' = Inr (''http://a/1'', False, info)"
    by simp
  from check_stream_outcome[of timeout_net "''http://a/1''" 5 "''http://a/1''" info,
      THEN conjunct2, THEN conjunct1, THEN mp, OF o'] r
  have i: "info = Message []" by simp
  from check_stream_outcome[of cancelled_net "''http://a/1''" 5,
      THEN conjunct2, THEN conjunct2, THEN mp, OF n] r'
  have p: "check_stream 5 cancelled_net ''http://a/1'' = Inl (Raise BaseException_only [])"
    by simp
  from c n r o' i p show ?thesis by simp
qed

text \<open>
  C5 as it is written fails twice: a timeout gives an unhealthy outcome whose reason is the
  empty string, and a cancellation leaves \<open>check_stream\<close> as an exception.
\<close>

theorem check_stream_outcome_counterexample:
  "check_stream 5 timeout_net ''http://a/1'' = Inr (''http://a/1'', False, Message [])
   \<and> check_stream 5 cancelled_net ''http://a/1'' = Inl (Raise BaseException_only [])"
  by (simp add: check_stream_def except_Exception_def timeout_net_def cancelled_net_def)

text \<open>
  C6. \<open>check_stream\<close> reports a stream healthy exactly when the request returned a response
  and the read of the first chunk returned; the status of the response is not examined, it
  is handed back as the detail of the healthy outcome.
\<close>

theorem check_stream_healthy:
  "(check_stream timeout net url = Inr (u, True, info))
     = (\<exists>response. io_get (net url timeout) = Inr response \<and> resp_read response = None
          \<and> u = url \<and> info = Status (resp_status response))"
  by (auto simp: check_stream_def except_Exception_def
           split: sum.splits option.splits exc_class.splits)

theorem check_stream_healthy_witness:
  "check_stream 5 steady_net ''http://a/1'' = Inr (''http://a/1'', True, Status 200)"
proof -
  have "\<exists>response. io_get (steady_net ''http://a/1'' 5) = Inr response
          \<and> resp_read response = None \<and> ''http://a/1'' = ''http://a/1''
          \<and> Status 200 = Status (resp_status response)"
    by (simp add: steady_net_def)
  then show ?thesis
    by (simp only: check_stream_healthy[of 5 steady_net "''http://a/1''" "''http://a/1''" "Status 200"])
qed

text \<open>C6 as it is written fails: a response with status 404 makes the stream healthy.\<close>

theorem check_stream_healthy_counterexample:
  "check_stream 5 not_found_net ''http://a/1'' = Inr (''http://a/1'', True, Status 404)"
  by (simp add: check_stream_def not_found_net_def)

text \<open>
  C4. The M3U and the PLS encoder read their two arguments and nothing else, and of the health
  map only the flags of the stream URLs: two maps that agree on these give the same documents,
  and so does the XSPF encoder when the clock reads the same. The XSPF encoder also reads the
  clock: two calls with equal arguments that both return a document return the same document
  exactly when the clock read the same text.
\<close>

theorem encoders_deterministic:
  "(list_all (\<lambda>u. health_status hr1 u = health_status hr2 u) (stream_urls sd) \<longrightarrow>
      create_m3u_playlist sd hr1 = create_m3u_playlist sd hr2
      \<and> create_pls_playlist sd hr1 = create_pls_playlist sd hr2
      \<and> create_xspf_playlist now sd hr1 = create_xspf_playlist now sd hr2)
   \<and> (clock_text now1 \<and> clock_text now2
        \<and> create_xspf_playlist now1 sd hr = Inr d1
        \<and> create_xspf_playlist now2 sd hr = Inr d2 \<longrightarrow>
      (d1 = d2) = (now1 = now2))"
proof (intro conjI impI)
  assume a: "list_all (\<lambda>u. health_status hr1 u = health_status hr2 u) (stream_urls sd)"
  have h: "healthy sd hr1 = healthy sd hr2"
    by (rule healthy_cong) (use a in \<open>simp add: list_all_iff\<close>)
  note e = encoders_healthy_cong[OF h, of now]
  from e show "create_m3u_playlist sd hr1 = create_m3u_playlist sd hr2" by (rule conjunct1)
  from e show "create_pls_playlist sd hr1 = create_pls_playlist sd hr2"
    by (rule conjunct1[OF conjunct2])
  from e show "create_xspf_playlist now sd hr1 = create_xspf_playlist now sd hr2"
    by (rule conjunct2[OF conjunct2])
next
  assume "clock_text now1 \<and> clock_text now2
        \<and> create_xspf_playlist now1 sd hr = Inr d1
        \<and> create_xspf_playlist now2 sd hr = Inr d2"
  then show "(d1 = d2) = (now1 = now2)"
    using xspf_date_injective[of now1 now2 sd hr d1 d2] by blast
qed

theorem encoders_deterministic_witness:
  "list_all (\<lambda>u. health_status scenario_health u = health_status only_alpha u)
     (stream_urls [alpha, beta])
   \<and> create_m3u_playlist [alpha, beta] scenario_health
       = create_m3u_playlist [alpha, beta] only_alpha
   \<and> clock_text ''2024-01-01T00:00:00+00:00'' \<and> clock_text ''2024-01-01T00:00:01+00:00''
   \<and> (\<exists>d1 d2. create_xspf_playlist ''2024-01-01T00:00:00+00:00'' [] Map.empty = Inr d1
              \<and> create_xspf_playlist ''2024-01-01T00:00:01+00:00'' [] Map.empty = Inr d2
              \<and> d1 \<noteq> d2)"
proof -
  have a: "list_all (\<lambda>u. health_status scenario_health u = health_status only_alpha u)
             (stream_urls [alpha, beta])"
    by (simp add: stream_urls_def health_status_def sample_defs)
  have c1: "clock_text ''2024-01-01T00:00:00+00:00''"
    by (simp add: clock_text_def plain_char_def xml_char_def)
  have c2: "clock_text ''2024-01-01T00:00:01+00:00''"
    by (simp add: clock_text_def plain_char_def xml_char_def)
  have w: "wellformed (xspf_tree now [] Map.empty) = list_all xml_char now" for now
    by (simp add: wellformed_xspf_tree healthy_def candidates_def)
  have x1: "create_xspf_playlist ''2024-01-01T00:00:00+00:00'' [] Map.empty
              = Inr (toprettyxml (xspf_tree ''2024-01-01T00:00:00+00:00'' [] Map.empty))"
    unfolding create_xspf_playlist_def Let_def w by (simp add: xml_char_def)
  have x2: "create_xspf_playlist ''2024-01-01T00:00:01+00:00'' [] Map.empty
              = Inr (toprettyxml (xspf_tree ''2024-01-01T00:00:01+00:00'' [] Map.empty))"
    unfolding create_xspf_playlist_def Let_def w by (simp add: xml_char_def)
  note t1 = encoders_deterministic[where ?hr1.0 = scenario_health and ?hr2.0 = only_alpha
      and sd = "[alpha, beta]"]
  note t2 = encoders_deterministic[where sd = "[]" and hr = Map.empty
      and ?now1.0 = "''2024-01-01T00:00:00+00:00''" and ?now2.0 = "''2024-01-01T00:00:01+00:00''"
      and ?d1.0 = "toprettyxml (xspf_tree ''2024-01-01T00:00:00+00:00'' [] Map.empty)"
      and ?d2.0 = "toprettyxml (xspf_tree ''2024-01-01T00:00:01+00:00'' [] Map.empty)"]
  from t1[THEN conjunct1, THEN mp, OF a]
  have m: "create_m3u_playlist [alpha, beta] scenario_health
             = create_m3u_playlist [alpha, beta] only_alpha"
    by (rule conjunct1)
  from t2[THEN conjunct2, THEN mp] c1 c2 x1 x2
  have "(toprettyxml (xspf_tree ''2024-01-01T00:00:00+00:00'' [] Map.empty)
          = toprettyxml (xspf_tree ''2024-01-01T00:00:01+00:00'' [] Map.empty))
        = (''2024-01-01T00:00:00+00:00'' = ''2024-01-01T00:00:01+00:00'')"
    by blast
  then have "toprettyxml (xspf_tree ''2024-01-01T00:00:00+00:00'' [] Map.empty)
          \<noteq> toprettyxml (xspf_tree ''2024-01-01T00:00:01+00:00'' [] Map.empty)"
    by simp
  with x1 x2 have "\<exists>d1 d2. create_xspf_playlist ''2024-01-01T00:00:00+00:00'' [] Map.empty = Inr d1
              \<and> create_xspf_playlist ''2024-01-01T00:00:01+00:00'' [] Map.empty = Inr d2
              \<and> d1 \<noteq> d2"
    by blast
  with a m c1 c2 show ?thesis by blast
qed

text \<open>
  C4 as it is written fails for the XSPF encoder: the same arguments, the clock one second
  later, and the document is another.
\<close>

theorem create_xspf_playlist_clock_counterexample:
  "create_xspf_playlist ''2024-01-01T00:00:00+00:00'' [] Map.empty
     \<noteq> create_xspf_playlist ''2024-01-01T00:00:01+00:00'' [] Map.empty"
  by (simp add: create_xspf_playlist_def xspf_tree_def toprettyxml_def xml_char_def Let_def
        write_data_def write_attr_def is_xmlns_def)




text \<open>
  C9. For every station list, the M3U and the PLS encoder return on the health map of the
  branch without health checks exactly what they return on any health map that holds every
  stream URL as healthy, and so does the XSPF encoder when the clock reads the same in both
  calls; and when every probe gets its response and its first chunk, \<open>check_streams\<close> returns
  such a map.
\<close>

theorem skipped_as_all_healthy:
  "(list_all (health_status hr) (stream_urls sd) \<longrightarrow>
      create_m3u_playlist sd (skipped (stream_urls sd)) = create_m3u_playlist sd hr
      \<and> create_pls_playlist sd (skipped (stream_urls sd)) = create_pls_playlist sd hr
      \<and> create_xspf_playlist now sd (skipped (stream_urls sd)) = create_xspf_playlist now sd hr)
   \<and> (list_all (\<lambda>u. raised (net u timeout) = None) (stream_urls sd) \<longrightarrow>
      (\<exists>checked t. check_streams timeout net (stream_urls sd) = Inr (checked, t)
         \<and> list_all (health_status checked) (stream_urls sd)
         \<and> create_m3u_playlist sd (skipped (stream_urls sd)) = create_m3u_playlist sd checked
         \<and> create_pls_playlist sd (skipped (stream_urls sd)) = create_pls_playlist sd checked
         \<and> create_xspf_playlist now sd (skipped (stream_urls sd))
             = create_xspf_playlist now sd checked))"
proof (intro conjI impI)
  assume a: "list_all (health_status hr) (stream_urls sd)"
  note e = encoders_healthy_cong[OF healthy_skipped[OF a], of now]
  from e show "create_m3u_playlist sd (skipped (stream_urls sd)) = create_m3u_playlist sd hr"
    by (rule conjunct1)
  from e show "create_pls_playlist sd (skipped (stream_urls sd)) = create_pls_playlist sd hr"
    by (rule conjunct1[OF conjunct2])
  from e show "create_xspf_playlist now sd (skipped (stream_urls sd))
                 = create_xspf_playlist now sd hr"
    by (rule conjunct2[OF conjunct2])
next
  let ?urls = "stream_urls sd"
  let ?checked = "\<lambda>u. if u \<in> set ?urls then Some (outcome timeout net u) else None"
  assume r: "list_all (\<lambda>u. raised (net u timeout) = None) ?urls"
  then have c: "list_all (\<lambda>u. catchable (net u timeout)) ?urls"
    by (simp add: list_all_iff catchable_def)
  have run: "check_streams timeout net ?urls
               = Inr (?checked, sum_list (probe_times timeout net ?urls))"
    using c by (rule check_streams_catchable)
  have h: "list_all (health_status ?checked) ?urls"
    using r by (simp add: list_all_iff health_status_def outcome_responds)
  note e = encoders_healthy_cong[OF healthy_skipped[OF h], of now]
  from run h e
  show "\<exists>checked t. check_streams timeout net ?urls = Inr (checked, t)
         \<and> list_all (health_status checked) ?urls
         \<and> create_m3u_playlist sd (skipped ?urls) = create_m3u_playlist sd checked
         \<and> create_pls_playlist sd (skipped ?urls) = create_pls_playlist sd checked
         \<and> create_xspf_playlist now sd (skipped ?urls) = create_xspf_playlist now sd checked"
    by blast
qed

theorem skipped_as_all_healthy_witness:
  "list_all (health_status both_healthy) (stream_urls [alpha, beta])
   \<and> create_m3u_playlist [alpha, beta] (skipped (stream_urls [alpha, beta]))
       = create_m3u_playlist [alpha, beta] both_healthy
   \<and> create_pls_playlist [alpha, beta] (skipped (stream_urls [alpha, beta]))
       = create_pls_playlist [alpha, beta] both_healthy
   \<and> list_all (\<lambda>u. raised (steady_net u 5) = None) (stream_urls [alpha, beta])
   \<and> (\<exists>checked t. check_streams 5 steady_net (stream_urls [alpha, beta]) = Inr (checked, t)
         \<and> create_m3u_playlist [alpha, beta] (skipped (stream_urls [alpha, beta]))
             = create_m3u_playlist [alpha, beta] checked)"
proof -
  have a: "list_all (health_status both_healthy) (stream_urls [alpha, beta])"
    by (simp add: stream_urls_def health_status_def sample_defs)
  have r: "list_all (\<lambda>u. raised (steady_net u 5) = None) (stream_urls [alpha, beta])"
    by (simp add: list_all_iff raised_def steady_net_def)
  note t1 = skipped_as_all_healthy[where hr = both_healthy and sd = "[alpha, beta]",
      THEN conjunct1, THEN mp, OF a]
  note t2 = skipped_as_all_healthy[where net = steady_net and timeout = 5 and sd = "[alpha, beta]",
      THEN conjunct2, THEN mp, OF r]
  from a r t1 t2 show ?thesis by blast
qed

text \<open>
  C9 as it is written fails for the XSPF encoder: the run without health checks and the run
  whose probes all report healthy read the clock each for itself, and one second apart their
  XSPF documents differ, for the same stations and health maps that hold every stream healthy.
\<close>

theorem skipped_as_all_healthy_counterexample:
  "list_all (health_status both_healthy) (stream_urls [alpha, beta])
   \<and> create_xspf_playlist ''2024-01-01T00:00:00+00:00'' [alpha, beta]
         (skipped (stream_urls [alpha, beta]))
       \<noteq> create_xspf_playlist ''2024-01-01T00:00:01+00:00'' [alpha, beta] both_healthy"
proof -
  have a: "list_all (health_status both_healthy) (stream_urls [alpha, beta])"
    by (simp add: stream_urls_def health_status_def sample_defs)
  have c1: "clock_text ''2024-01-01T00:00:00+00:00''"
    by (simp add: clock_text_def plain_char_def xml_char_def)
  have c2: "clock_text ''2024-01-01T00:00:01+00:00''"
    by (simp add: clock_text_def plain_char_def xml_char_def)
  have same: "create_xspf_playlist ''2024-01-01T00:00:00+00:00'' [alpha, beta]
                (skipped (stream_urls [alpha, beta]))
              = create_xspf_playlist ''2024-01-01T00:00:00+00:00'' [alpha, beta] both_healthy"
    using encoders_healthy_cong[OF healthy_skipped[OF a]] by blast
  have h: "healthy [alpha, beta] both_healthy = [(alpha, alpha_mount), (beta, beta_mount)]"
    by (simp add: healthy_def candidates_def health_status_def sample_defs)
  have w: "wellformed (xspf_tree now [alpha, beta] both_healthy)" if "clock_text now" for now
  proof -
    have "list_all xml_char now"
      using that by (simp add: clock_text_def plain_char_def list_all_iff)
    moreover have "wellformed (xspf_track alpha alpha_mount)"
      by (simp add: xspf_track_def get_or_empty_def if_available_def xml_char_def sample_defs)
    moreover have "wellformed (xspf_track beta beta_mount)"
      by (simp add: xspf_track_def get_or_empty_def if_available_def xml_char_def sample_defs)
    ultimately show ?thesis
      unfolding wellformed_xspf_tree h by simp
  qed
  have x1: "create_xspf_playlist ''2024-01-01T00:00:00+00:00'' [alpha, beta] both_healthy
              = Inr (toprettyxml (xspf_tree ''2024-01-01T00:00:00+00:00'' [alpha, beta] both_healthy))"
    using w[OF c1] by (simp add: create_xspf_playlist_def Let_def)
  have x2: "create_xspf_playlist ''2024-01-01T00:00:01+00:00'' [alpha, beta] both_healthy
              = Inr (toprettyxml (xspf_tree ''2024-01-01T00:00:01+00:00'' [alpha, beta] both_healthy))"
    using w[OF c2] by (simp add: create_xspf_playlist_def Let_def)
  have "(toprettyxml (xspf_tree ''2024-01-01T00:00:00+00:00'' [alpha, beta] both_healthy)
          = toprettyxml (xspf_tree ''2024-01-01T00:00:01+00:00'' [alpha, beta] both_healthy))
        = (''2024-01-01T00:00:00+00:00'' = ''2024-01-01T00:00:01+00:00'')"
    using c1 c2 x1 x2 by (rule xspf_date_injective)
  then have "toprettyxml (xspf_tree ''2024-01-01T00:00:00+00:00'' [alpha, beta] both_healthy)
          \<noteq> toprettyxml (xspf_tree ''2024-01-01T00:00:01+00:00'' [alpha, beta] both_healthy)"
    by simp
  with x1 x2 same a show ?thesis by simp
qed

text \<open>
  C10. A candidate whose stream URL is not a key of the health map is unhealthy for the three
  encoders: the lookup falls back on \<open>(False, "Not checked")\<close>, the documents are those for
  the map that holds this entry, and every candidate that is written has its URL among the
  keys. The M3U and the PLS encoder return a document for every station list and health map.
  The XSPF encoder raises exactly when the clock text or a text of the track of a healthy
  candidate holds a character that XML does not allow; candidates outside the map play no
  part in it.
\<close>

theorem missing_entry_unhealthy:
  "(url \<notin> dom hr \<longrightarrow>
      \<not> health_status hr url
      \<and> create_m3u_playlist sd hr
          = create_m3u_playlist sd (hr(url \<mapsto> (False, Message ''Not checked'')))
      \<and> create_pls_playlist sd hr
          = create_pls_playlist sd (hr(url \<mapsto> (False, Message ''Not checked'')))
      \<and> create_xspf_playlist now sd hr
          = create_xspf_playlist now sd (hr(url \<mapsto> (False, Message ''Not checked''))))
   \<and> list_all (\<lambda>c. mount_url (snd c) \<in> dom hr) (healthy sd hr)
   \<and> (create_xspf_playlist now sd hr = Inl ExpatError)
       = (\<not> (list_all xml_char now
              \<and> list_all (\<lambda>c. wellformed (xspf_track (fst c) (snd c))) (healthy sd hr)))"
proof (intro conjI impI)
  assume m: "url \<notin> dom hr"
  then have "hr url = None" by (simp only: domIff not_not)
  then show "\<not> health_status hr url" by (simp add: health_status_def)
  have "healthy sd hr = healthy sd (hr(url \<mapsto> (False, Message ''Not checked'')))"
    unfolding healthy_def health_status_missing[OF m] ..
  note e = encoders_healthy_cong[OF this, of now]
  from e show "create_m3u_playlist sd hr
          = create_m3u_playlist sd (hr(url \<mapsto> (False, Message ''Not checked'')))"
    by (rule conjunct1)
  from e show "create_pls_playlist sd hr
          = create_pls_playlist sd (hr(url \<mapsto> (False, Message ''Not checked'')))"
    by (rule conjunct1[OF conjunct2])
  from e show "create_xspf_playlist now sd hr
          = create_xspf_playlist now sd (hr(url \<mapsto> (False, Message ''Not checked'')))"
    by (rule conjunct2[OF conjunct2])
next
  show "list_all (\<lambda>c. mount_url (snd c) \<in> dom hr) (healthy sd hr)"
    by (rule healthy_in_dom)
  show "(create_xspf_playlist now sd hr = Inl ExpatError)
       = (\<not> (list_all xml_char now
              \<and> list_all (\<lambda>c. wellformed (xspf_track (fst c) (snd c))) (healthy sd hr)))"
    by (rule create_xspf_playlist_raises)
qed

theorem missing_entry_unhealthy_witness:
  "''http://a/2'' \<notin> dom only_alpha
   \<and> \<not> health_status only_alpha ''http://a/2''
   \<and> create_m3u_playlist [alpha, beta] only_alpha
       = create_m3u_playlist [alpha, beta]
           (only_alpha(''http://a/2'' \<mapsto> (False, Message ''Not checked'')))
   \<and> create_m3u_playlist [alpha, beta] only_alpha
       = ''#EXTM3U\<newline>#EXTINF:-1,Alpha - 128kbps\<newline>http://a/1\<newline>''"
proof -
  have m: "''http://a/2'' \<notin> dom only_alpha"
    by (simp add: only_alpha_def)
  note t = missing_entry_unhealthy[where url = "''http://a/2''" and hr = only_alpha
      and sd = "[alpha, beta]", THEN conjunct1, THEN mp, OF m]
  have d: "create_m3u_playlist [alpha, beta] only_alpha
       = ''#EXTM3U\<newline>#EXTINF:-1,Alpha - 128kbps\<newline>http://a/1\<newline>''"
    by (simp add: m3u_eval sample_defs)
  from m t d show ?thesis by blast
qed

text \<open>
  C10 as it is written fails for the XSPF encoder: with a health map that misses the second
  stream, a control character in the name of the healthy station makes the encoder raise.
\<close>

theorem create_xspf_playlist_total_counterexample:
  "create_xspf_playlist ''2024-01-01T00:00:00+00:00'' [control_station, beta] only_alpha
     = Inl ExpatError"
  by (simp add: create_xspf_playlist_def xspf_tree_def xspf_mount_def xspf_track_def
        health_status_def get_or_empty_def if_available_def xml_char_def sample_defs Let_def)

end
